theory Spec2Isabelle
  imports Main "HOL-Library.Word"
begin

unbundle bit_operations_syntax

section \<open>Line deduplication: the hash store and the binary line codec\<close>

text \<open>
  The development embeds \<^verbatim>\<open>final_dedupe_cli.py\<close>: the class \<^verbatim>\<open>HashStore\<close>
  (a dictionary from the hexadecimal digest of a line to the line, kept in a gzipped pickle),
  the class \<^verbatim>\<open>DedupeEngine\<close> (seeding, encoding and decoding) and \<^verbatim>\<open>main\<close>.
  Of the sibling program \<^verbatim>\<open>collision_dedup_cli.py\<close> it embeds the loader of the store
  and the start of the seed branch.

  A Python \<^verbatim>\<open>str\<close> is modelled by the list of the bytes of its UTF-8 encoding, which is
  what the hash function is fed with; the examples below are ASCII.
\<close>

type_synonym byte = "8 word"
type_synonym u32 = "32 word"

subsection \<open>The 32-bit hash of the xxhash library\<close>

text \<open>
  The programs call \<^verbatim>\<open>xxhash.xxh32(line, seed=0)\<close>, a function of the xxhash library and
  not of the repository. It is written out here after the XXH32 algorithm, so that the
  examples run on the hashes the programs really compute; the general theorems use no
  property of it.
\<close>

definition PRIME32_1 :: u32 where "PRIME32_1 = 2654435761"
definition PRIME32_2 :: u32 where "PRIME32_2 = 2246822519"
definition PRIME32_3 :: u32 where "PRIME32_3 = 3266489917"
definition PRIME32_4 :: u32 where "PRIME32_4 = 668265263"
definition PRIME32_5 :: u32 where "PRIME32_5 = 374761393"

definition rotl32 :: "u32 \<Rightarrow> nat \<Rightarrow> u32" where
  "rotl32 x r = push_bit r x OR drop_bit (32 - r) x"

definition read32le :: "char \<Rightarrow> char \<Rightarrow> char \<Rightarrow> char \<Rightarrow> u32" where
  "read32le a b c d =
     of_char a OR push_bit 8 (of_char b) OR push_bit 16 (of_char c) OR push_bit 24 (of_char d)"

definition xxh32_round :: "u32 \<Rightarrow> u32 \<Rightarrow> u32" where
  "xxh32_round acc inp = rotl32 (acc + inp * PRIME32_2) 13 * PRIME32_1"

text \<open>The stripes of 16 bytes, consumed while at least 16 bytes remain.\<close>

fun xxh32_stripes :: "u32 \<times> u32 \<times> u32 \<times> u32 \<Rightarrow> string \<Rightarrow> (u32 \<times> u32 \<times> u32 \<times> u32) \<times> string" where
  "xxh32_stripes (v1, v2, v3, v4)
      (a0 # a1 # a2 # a3 # b0 # b1 # b2 # b3 # c0 # c1 # c2 # c3 # d0 # d1 # d2 # d3 # rest) =
     xxh32_stripes
       (xxh32_round v1 (read32le a0 a1 a2 a3), xxh32_round v2 (read32le b0 b1 b2 b3),
        xxh32_round v3 (read32le c0 c1 c2 c3), xxh32_round v4 (read32le d0 d1 d2 d3)) rest"
| "xxh32_stripes vs rest = (vs, rest)"

text \<open>The tail: whole 4-byte words first, then single bytes.\<close>

fun xxh32_tail :: "u32 \<Rightarrow> string \<Rightarrow> u32" where
  "xxh32_tail h (a # b # c # d # rest) =
     xxh32_tail (rotl32 (h + read32le a b c d * PRIME32_3) 17 * PRIME32_4) rest"
| "xxh32_tail h (a # rest) = xxh32_tail (rotl32 (h + of_char a * PRIME32_5) 11 * PRIME32_1) rest"
| "xxh32_tail h [] = h"

definition xxh32_avalanche :: "u32 \<Rightarrow> u32" where
  "xxh32_avalanche h0 =
     (let h1 = h0 XOR drop_bit 15 h0;
          h2 = h1 * PRIME32_2;
          h3 = h2 XOR drop_bit 13 h2;
          h4 = h3 * PRIME32_3
      in h4 XOR drop_bit 16 h4)"

definition xxh32 :: "string \<Rightarrow> u32" where
  "xxh32 s =
     (let (h, rest) =
            (if 16 \<le> length s
             then (case xxh32_stripes (PRIME32_1 + PRIME32_2, PRIME32_2, 0, - PRIME32_1) s of
                     ((v1, v2, v3, v4), rest) \<Rightarrow>
                       (rotl32 v1 1 + rotl32 v2 7 + rotl32 v3 12 + rotl32 v4 18, rest))
             else (PRIME32_5, s))
      in xxh32_avalanche (xxh32_tail (h + of_nat (length s)) rest))"

subsection \<open>Digests\<close>

text \<open>
  \<^verbatim>\<open>h.digest()\<close> is the hash as four bytes, most significant first, and
  \<^verbatim>\<open>h.hexdigest()\<close> the same bytes in lower-case hexadecimal, which is also what
  \<^verbatim>\<open>bytes.hex()\<close> gives for the four bytes read back by the decoder.
\<close>

definition digest :: "u32 \<Rightarrow> byte list" where
  "digest h = [ucast (drop_bit 24 h), ucast (drop_bit 16 h), ucast (drop_bit 8 h), ucast h]"

definition hex_digit :: "nat \<Rightarrow> char" where
  "hex_digit n = ''0123456789abcdef'' ! n"

definition hex_byte :: "byte \<Rightarrow> string" where
  "hex_byte b = [hex_digit (unat b div 16), hex_digit (unat b mod 16)]"

definition hex :: "byte list \<Rightarrow> string" where
  "hex bs = concat (map hex_byte bs)"

definition hexdigest :: "u32 \<Rightarrow> string" where
  "hexdigest h = hex (digest h)"

subsection \<open>What the programs print\<close>

text \<open>
  Everything is printed on standard output. Each \<^verbatim>\<open>print\<close> of the source is one
  constructor, carrying the values interpolated into the message, in the order of the
  source: the reconstructed text is made of \<open>Line\<close> (\<^verbatim>\<open>print(store[key])\<close>) and
  \<open>BlankLine\<close> (\<^verbatim>\<open>print()\<close>); every other constructor is a message.
\<close>

datatype exn = OSError | BadGzipFile | UnpicklingError | EOFError | OtherException

datatype event =
    StoreLoaded string
  | StoreLoadWarning string exn
  | StoreLoadUnexpected string exn
  | NoStoreFound string
  | StoreSaved string
  | StoreSaveError string
  | CollisionWarning string string string
  | SeedingDatabase string string
  | NoFilesFound string
  | ProcessingFile string
  | FileError string
  | SeedingComplete nat nat
  | InputNotFound string
  | Encoding string string
  | EncodingComplete
  | ProcessingError
  | HashFileNotFound string
  | Decoding string
  | BlankLine
  | Line string
  | IncompleteWarning
  | MissingWarning string
  | DecodingComplete
  | DecodingError

text \<open>The lines of text among what was printed, a blank line being the empty string.\<close>

fun output_lines :: "event list \<Rightarrow> string list" where
  "output_lines [] = []"
| "output_lines (Line l # es) = l # output_lines es"
| "output_lines (BlankLine # es) = [] # output_lines es"
| "output_lines (e # es) = output_lines es"

subsection \<open>HashStore\<close>

text \<open>\<^verbatim>\<open>self.store: Dict[str, str]\<close>, from the hexadecimal digest to the line.\<close>

type_synonym store = "string \<rightharpoonup> string"

text \<open>
  \<^verbatim>\<open>HashStore.add_item\<close>: the result, the store afterwards and what was printed. The first
  argument stands for the xxhash object, of which only the digest is used.
\<close>

definition add_item :: "store \<Rightarrow> u32 \<Rightarrow> string \<Rightarrow> bool \<times> store \<times> event list" where
  "add_item st xxhash_obj text =
     (let hash_hex = hexdigest xxhash_obj in
      case st hash_hex of
        Some existing \<Rightarrow>
          (False, st, if existing \<noteq> text then [CollisionWarning hash_hex existing text] else [])
      | None \<Rightarrow> (True, st(hash_hex \<mapsto> text), []))"

subsection \<open>DedupeEngine: the loops over lines and bytes\<close>

text \<open>\<^verbatim>\<open>line.rstrip('\n')\<close> removes every trailing line feed.\<close>

definition rstrip_nl :: "string \<Rightarrow> string" where
  "rstrip_nl s = rev (dropWhile (\<lambda>c. c = CHR 0x0A) (rev s))"

text \<open>
  The body of the loop of \<^verbatim>\<open>seed_from_glob\<close> over the lines of one file, on the store
  and the two counters \<^verbatim>\<open>total_lines_processed\<close> and \<^verbatim>\<open>unique_lines_added\<close>.
\<close>

definition seed_line :: "store \<times> nat \<times> nat \<Rightarrow> string \<Rightarrow> (store \<times> nat \<times> nat) \<times> event list" where
  "seed_line s raw =
     (case s of (st, total_lines_processed, unique_lines_added) \<Rightarrow>
        (let line = rstrip_nl raw in
         if line \<noteq> [] then
           (case add_item st (xxh32 line) line of
              (added, st', warn) \<Rightarrow>
                ((st', total_lines_processed + 1,
                  if added then unique_lines_added + 1 else unique_lines_added), warn))
         else ((st, total_lines_processed + 1, unique_lines_added), [])))"

fun seed_lines :: "store \<times> nat \<times> nat \<Rightarrow> string list \<Rightarrow> (store \<times> nat \<times> nat) \<times> event list" where
  "seed_lines s [] = (s, [])"
| "seed_lines s (raw # rest) =
     (case seed_line s raw of
        (s1, w) \<Rightarrow> (case seed_lines s1 rest of (s2, w') \<Rightarrow> (s2, w @ w')))"

text \<open>
  The body of the loop of \<^verbatim>\<open>process_and_encode\<close>: the store afterwards, the bytes written
  to the output file and what was printed.
\<close>

definition encode_line :: "store \<Rightarrow> string \<Rightarrow> store \<times> byte list \<times> event list" where
  "encode_line st raw =
     (let line = rstrip_nl raw in
      if line = [] then (st, [0], [])
      else
        (let h = xxh32 line in
         case add_item st h line of (added, st', warn) \<Rightarrow> (st', digest h, warn)))"

fun encode_lines :: "store \<Rightarrow> string list \<Rightarrow> store \<times> byte list \<times> event list" where
  "encode_lines st [] = (st, [], [])"
| "encode_lines st (raw # rest) =
     (case encode_line st raw of
        (st1, bs, w) \<Rightarrow>
          (case encode_lines st1 rest of (st2, bs', w') \<Rightarrow> (st2, bs @ bs', w @ w')))"

text \<open>
  The loop of \<^verbatim>\<open>decode_and_print\<close>. \<open>decode_hash\<close> is its last step, on the four bytes
  of a complete hash: the line stored under their hexadecimal form, or the warning.
\<close>

definition decode_hash :: "store \<Rightarrow> byte list \<Rightarrow> event" where
  "decode_hash st full_hash_bytes =
     (let hash_hex_key = hex full_hash_bytes in
      case st hash_hex_key of
        Some line \<Rightarrow> Line line
      | None \<Rightarrow> MissingWarning hash_hex_key)"

fun decode_loop :: "store \<Rightarrow> byte list \<Rightarrow> event list" where
  "decode_loop st [] = []"
| "decode_loop st (chunk # rest) =
     (if chunk = 0 then BlankLine # decode_loop st rest
      else
        (let remaining_hash_bytes = take 3 rest in
         if length remaining_hash_bytes \<noteq> 3 then [IncompleteWarning]
         else decode_hash st (chunk # remaining_hash_bytes) # decode_loop st (drop 3 rest)))"

subsection \<open>Files, exceptions and exits\<close>

text \<open>
  The operating system as the programs see it, one field per library call:
  \<^verbatim>\<open>os.path.exists\<close>; \<^verbatim>\<open>glob.glob\<close>; the lines that iterating over
  \<^verbatim>\<open>open(p, 'r')\<close> yields, or \<open>None\<close> when it raises \<^verbatim>\<open>IOError\<close>; the bytes of
  \<^verbatim>\<open>open(p, 'rb')\<close>, likewise; what \<^verbatim>\<open>pickle.load\<close> of \<^verbatim>\<open>gzip.open(p, 'rb')\<close>
  returns or raises; and whether opening \<open>p\<close> for writing raises \<^verbatim>\<open>IOError\<close>.
\<close>

record os =
  path_exists :: "string \<Rightarrow> bool"
  glob_glob :: "string \<Rightarrow> string list"
  text_file :: "string \<Rightarrow> string list option"
  binary_file :: "string \<Rightarrow> byte list option"
  store_file :: "string \<Rightarrow> exn + store"
  write_fails :: "string \<Rightarrow> bool"

text \<open>
  A call returns, leaves the process through \<^verbatim>\<open>sys.exit\<close>, or raises an exception that
  nothing catches, which ends the process with a traceback and status 1.
\<close>

datatype 'a result = Return 'a | SysExit nat | Raise exn

fun exit_status :: "'a result \<Rightarrow> nat" where
  "exit_status (Return x) = 0"
| "exit_status (SysExit n) = n"
| "exit_status (Raise e) = 1"

text \<open>\<^verbatim>\<open>IOError\<close> is \<^verbatim>\<open>OSError\<close>, of which \<^verbatim>\<open>gzip.BadGzipFile\<close> is a subclass.\<close>

definition is_IOError :: "exn \<Rightarrow> bool" where
  "is_IOError e = (e = OSError \<or> e = BadGzipFile)"

text \<open>\<^verbatim>\<open>HashStore._load\<close>, which catches \<^verbatim>\<open>(IOError, pickle.UnpicklingError)\<close>.\<close>

definition HashStore_load :: "os \<Rightarrow> string \<Rightarrow> event list \<times> store result" where
  "HashStore_load os db_path =
     (if path_exists os db_path then
        (case store_file os db_path of
           Inr d \<Rightarrow> ([StoreLoaded db_path], Return d)
         | Inl e \<Rightarrow>
             if is_IOError e \<or> e = UnpicklingError
             then ([StoreLoadWarning db_path e], Return Map.empty)
             else ([], Raise e))
      else ([NoStoreFound db_path], Return Map.empty))"

text \<open>
  \<^verbatim>\<open>HashStore._load_store\<close> of \<^verbatim>\<open>collision_dedup_cli.py\<close>, which catches
  \<^verbatim>\<open>(pickle.UnpicklingError, EOFError, gzip.BadGzipFile)\<close> and then \<^verbatim>\<open>Exception\<close>;
  it prints nothing when there is no file.
\<close>

definition collision_load_store :: "os \<Rightarrow> string \<Rightarrow> event list \<times> store result" where
  "collision_load_store os blob_path =
     (if path_exists os blob_path then
        (case store_file os blob_path of
           Inr d \<Rightarrow> ([StoreLoaded blob_path], Return d)
         | Inl e \<Rightarrow>
             if e = UnpicklingError \<or> e = EOFError \<or> e = BadGzipFile
             then ([StoreLoadWarning blob_path e], Return Map.empty)
             else ([StoreLoadUnexpected blob_path e], Return Map.empty))
      else ([], Return Map.empty))"

text \<open>\<^verbatim>\<open>HashStore.save\<close>: the file then exists and loads as the store written.\<close>

definition HashStore_save :: "os \<Rightarrow> string \<Rightarrow> store \<Rightarrow> event list \<times> unit result \<times> os" where
  "HashStore_save os db_path st =
     (if write_fails os db_path then ([StoreSaveError db_path], SysExit 1, os)
      else
        ([StoreSaved db_path], Return (),
         os\<lparr>path_exists := (path_exists os)(db_path := True),
            store_file := (store_file os)(db_path := Inr st)\<rparr>))"

subsection \<open>DedupeEngine: the operations\<close>

text \<open>The loop of \<^verbatim>\<open>seed_from_glob\<close> over the files; a file that cannot be read is skipped.\<close>

fun seed_files :: "os \<Rightarrow> store \<times> nat \<times> nat \<Rightarrow> string list \<Rightarrow> (store \<times> nat \<times> nat) \<times> event list" where
  "seed_files os s [] = (s, [])"
| "seed_files os s (filepath # rest) =
     (case text_file os filepath of
        None \<Rightarrow> (case seed_files os s rest of (s', w) \<Rightarrow> (s', FileError filepath # w))
      | Some lines \<Rightarrow>
          (case seed_lines s lines of
             (s1, w1) \<Rightarrow>
               (case seed_files os s1 rest of
                  (s2, w2) \<Rightarrow> (s2, ProcessingFile filepath # w1 @ w2))))"

definition seed_from_glob :: "os \<Rightarrow> store \<Rightarrow> string \<Rightarrow> event list \<times> store result" where
  "seed_from_glob os st glob_pattern =
     (let files = glob_glob os glob_pattern in
      if files = [] then ([NoFilesFound glob_pattern], Return st)
      else
        (case seed_files os (st, 0, 0) files of
           ((st', total_lines_processed, unique_lines_added), w) \<Rightarrow>
             (w @ [SeedingComplete total_lines_processed unique_lines_added], Return st')))"

text \<open>
  \<^verbatim>\<open>process_and_encode\<close>. The output file is opened, and so emptied, before the first
  line of the input is read: an input that is also the output has no line left.
\<close>

definition process_and_encode ::
    "os \<Rightarrow> store \<Rightarrow> string \<Rightarrow> string \<Rightarrow> event list \<times> (store \<times> os) result" where
  "process_and_encode os st input_file output_file =
     (if \<not> path_exists os input_file then ([InputNotFound input_file], SysExit 1)
      else
        (case text_file os input_file of
           None \<Rightarrow> ([ProcessingError], SysExit 1)
         | Some lines \<Rightarrow>
             if write_fails os output_file then ([ProcessingError], SysExit 1)
             else
               (case encode_lines st (if output_file = input_file then [] else lines) of
                  (st', bs, w) \<Rightarrow>
                    (Encoding input_file output_file # w @ [EncodingComplete],
                     Return (st',
                       os\<lparr>path_exists := (path_exists os)(output_file := True),
                          binary_file := (binary_file os)(output_file := Some bs)\<rparr>)))))"

text \<open>\<^verbatim>\<open>decode_and_print\<close>, which returns the engine's store as it received it.\<close>

definition decode_and_print :: "os \<Rightarrow> store \<Rightarrow> string \<Rightarrow> event list \<times> store result" where
  "decode_and_print os st hash_file =
     (if \<not> path_exists os hash_file then ([HashFileNotFound hash_file], SysExit 1)
      else
        (case binary_file os hash_file of
           None \<Rightarrow> ([DecodingError], SysExit 1)
         | Some bs \<Rightarrow> (Decoding hash_file # decode_loop st bs @ [DecodingComplete], Return st)))"

subsection \<open>main\<close>

text \<open>
  The parsed command line: \<^verbatim>\<open>--db\<close> has a default, and of \<^verbatim>\<open>--seed\<close>, \<^verbatim>\<open>--input\<close>
  and \<^verbatim>\<open>--decode\<close> the parser demands exactly one. \<open>given\<close> is the test \<^verbatim>\<open>if args.x\<close>,
  which an absent option and the empty string both fail.
\<close>

record args =
  arg_db :: string
  arg_seed :: "string option"
  arg_input :: "string option"
  arg_decode :: "string option"
  arg_output :: "string option"

definition given :: "string option \<Rightarrow> string option" where
  "given a = (case a of None \<Rightarrow> None | Some s \<Rightarrow> if s = [] then None else Some s)"

text \<open>The command chosen, on the loaded store; \<^verbatim>\<open>parser.error\<close> exits with status 2.\<close>

definition run_command :: "os \<Rightarrow> store \<Rightarrow> args \<Rightarrow> event list \<times> (store \<times> os) result" where
  "run_command os st a =
     (case given (arg_seed a) of
        Some glob_pattern \<Rightarrow>
          (case seed_from_glob os st glob_pattern of
             (ev, Return st') \<Rightarrow> (ev, Return (st', os))
           | (ev, SysExit n) \<Rightarrow> (ev, SysExit n)
           | (ev, Raise e) \<Rightarrow> (ev, Raise e))
      | None \<Rightarrow>
          (case given (arg_input a) of
             Some input_file \<Rightarrow>
               (case given (arg_output a) of
                  None \<Rightarrow> ([], SysExit 2)
                | Some output_file \<Rightarrow> process_and_encode os st input_file output_file)
           | None \<Rightarrow>
               (case given (arg_decode a) of
                  Some hash_file \<Rightarrow>
                    (case decode_and_print os st hash_file of
                       (ev, Return st') \<Rightarrow> (ev, Return (st', os))
                     | (ev, SysExit n) \<Rightarrow> (ev, SysExit n)
                     | (ev, Raise e) \<Rightarrow> (ev, Raise e))
                | None \<Rightarrow> ([], Return (st, os)))))"

text \<open>
  \<^verbatim>\<open>main\<close>: load the store, run the command and, when it returned, save the store.
  The result is what was printed, how the process ended and the files afterwards.
\<close>

definition main :: "os \<Rightarrow> args \<Rightarrow> event list \<times> unit result \<times> os" where
  "main os a =
     (case HashStore_load os (arg_db a) of
        (ev0, SysExit n) \<Rightarrow> (ev0, SysExit n, os)
      | (ev0, Raise e) \<Rightarrow> (ev0, Raise e, os)
      | (ev0, Return st) \<Rightarrow>
          (case run_command os st a of
             (ev1, SysExit n) \<Rightarrow> (ev0 @ ev1, SysExit n, os)
           | (ev1, Raise e) \<Rightarrow> (ev0 @ ev1, Raise e, os)
           | (ev1, Return (st', os')) \<Rightarrow>
               (case HashStore_save os' (arg_db a) st' of
                  (ev2, r, os'') \<Rightarrow> (ev0 @ ev1 @ ev2, r, os''))))"

text \<open>A directory with no file in it, where every file can be written.\<close>

definition empty_os :: os where
  "empty_os =
     \<lparr>path_exists = (\<lambda>p. False), glob_glob = (\<lambda>p. []), text_file = (\<lambda>p. None),
      binary_file = (\<lambda>p. None), store_file = (\<lambda>p. Inl OSError), write_fails = (\<lambda>p. False)\<rparr>"

text \<open>
  The start of the seed branch of \<^verbatim>\<open>main\<close> in \<^verbatim>\<open>collision_dedup_cli.py\<close>, which
  announces the seeding and then looks for the files: the files to seed from, or the
  exit when the pattern matches none.
\<close>

definition collision_seed_files ::
    "os \<Rightarrow> string \<Rightarrow> string \<Rightarrow> event list \<times> string list result" where
  "collision_seed_files os db_path glob_pattern =
     (let file_paths = glob_glob os glob_pattern in
      if file_paths = []
      then ([SeedingDatabase db_path glob_pattern, NoFilesFound glob_pattern], SysExit 1)
      else ([SeedingDatabase db_path glob_pattern], Return file_paths))"

section \<open>Properties of the digests\<close>

lemma length_digest: "length (digest h) = 4"
  by (simp add: digest_def)

lemma hex_digit_inj: "a < 16 \<Longrightarrow> b < 16 \<Longrightarrow> hex_digit a = hex_digit b \<Longrightarrow> a = b"
proof -
  assume a: "a < 16" and b: "b < 16" and e: "hex_digit a = hex_digit b"
  have d: "distinct ''0123456789abcdef''" by simp
  have l: "length ''0123456789abcdef'' = 16" by simp
  from e have "''0123456789abcdef'' ! a = ''0123456789abcdef'' ! b"
    by (simp only: hex_digit_def)
  with d a b l show "a = b"
    by (simp only: nth_eq_iff_index_eq)
qed

lemma hex_byte_inj: "hex_byte a = hex_byte b \<Longrightarrow> a = b"
proof -
  assume e: "hex_byte a = hex_byte b"
  have la: "unat a < 256" using unsigned_less [of a, where ?'a = nat] by simp
  have lb: "unat b < 256" using unsigned_less [of b, where ?'a = nat] by simp
  from la have da: "unat a div 16 < 16" by simp
  from lb have db: "unat b div 16 < 16" by simp
  have ma: "unat a mod 16 < 16" and mb: "unat b mod 16 < 16" by simp_all
  from e have "hex_digit (unat a div 16) = hex_digit (unat b div 16)"
    and "hex_digit (unat a mod 16) = hex_digit (unat b mod 16)"
    by (simp_all add: hex_byte_def)
  then have "unat a div 16 = unat b div 16" and "unat a mod 16 = unat b mod 16"
    using hex_digit_inj da db ma mb by blast+
  then have "unat a = unat b"
    by (metis div_mult_mod_eq)
  then show "a = b" by (simp add: word_unat_eq_iff)
qed

lemma hex_Cons: "hex (b # bs) = hex_byte b @ hex bs"
  by (simp add: hex_def)

text \<open>Two byte strings with the same hexadecimal form are the same.\<close>

lemma hex_inj: "hex xs = hex ys \<Longrightarrow> xs = ys"
proof (induction xs arbitrary: ys)
  case Nil
  then show ?case by (cases ys) (simp_all add: hex_def hex_byte_def)
next
  case (Cons x xs)
  show ?case
  proof (cases ys)
    case Nil
    with Cons.prems show ?thesis by (simp add: hex_def hex_byte_def)
  next
    case (Cons y ys')
    with Cons.prems have e: "hex_byte x @ hex xs = hex_byte y @ hex ys'"
      by (simp add: hex_Cons)
    have "length (hex_byte x) = length (hex_byte y)" by (simp add: hex_byte_def)
    with e have "hex_byte x = hex_byte y" and "hex xs = hex ys'" by simp_all
    with Cons.IH hex_byte_inj Cons show ?thesis by blast
  qed
qed

lemma hexdigest_eq_iff: "hexdigest a = hexdigest b \<longleftrightarrow> digest a = digest b"
  using hex_inj by (auto simp: hexdigest_def)

text \<open>The hashes of the lines used in the examples below.\<close>

lemma digest_foo: "digest (xxh32 ''foo'') = [226, 15, 13, 217]"
  by code_simp

lemma digest_bar: "digest (xxh32 ''bar'') = [65, 162, 43, 44]"
  by code_simp

lemma digest_aqc: "digest (xxh32 ''aqc'') = [0, 181, 218, 198]"
  by code_simp

lemma digest_tqt: "digest (xxh32 ''tqt'') = [90, 205, 148, 69]"
  by code_simp

lemma digest_dluw: "digest (xxh32 ''dluw'') = [90, 205, 148, 69]"
  by code_simp

lemma digest_spaces: "digest (xxh32 [CHR 0x20, CHR 0x20, CHR 0x09]) = [195, 22, 143, 251]"
  by code_simp

lemma hexdigest_foo: "hexdigest (xxh32 ''foo'') = ''e20f0dd9''"
  by code_simp

lemma hexdigest_bar: "hexdigest (xxh32 ''bar'') = ''41a22b2c''"
  by code_simp

lemma hexdigest_aqc: "hexdigest (xxh32 ''aqc'') = ''00b5dac6''"
  by code_simp

lemma hexdigest_tqt: "hexdigest (xxh32 ''tqt'') = ''5acd9445''"
  by code_simp

lemma hexdigest_dluw: "hexdigest (xxh32 ''dluw'') = ''5acd9445''"
  by code_simp

section \<open>Properties of the store and of the loops\<close>

lemma add_item_result:
  "add_item st h t =
     (st (hexdigest h) = None,
      (if st (hexdigest h) = None then st(hexdigest h \<mapsto> t) else st),
      (case st (hexdigest h) of
         None \<Rightarrow> []
       | Some e \<Rightarrow> if e \<noteq> t then [CollisionWarning (hexdigest h) e t] else []))"
  by (simp add: add_item_def Let_def split: option.splits)

text \<open>An entry of the store is never replaced.\<close>

lemma add_item_mono: "st k = Some v \<Longrightarrow> fst (snd (add_item st h t)) k = Some v"
  by (auto simp: add_item_result)

lemma encode_line_bytes:
  "fst (snd (encode_line st raw)) =
     (if rstrip_nl raw = [] then [0] else digest (xxh32 (rstrip_nl raw)))"
  by (simp add: encode_line_def Let_def split: prod.splits)

lemma encode_line_store:
  "fst (encode_line st raw) =
     (if rstrip_nl raw = [] then st
      else fst (snd (add_item st (xxh32 (rstrip_nl raw)) (rstrip_nl raw))))"
  by (simp add: encode_line_def Let_def split: prod.splits)

lemma encode_lines_Cons_store:
  "fst (encode_lines st (raw # rest)) = fst (encode_lines (fst (encode_line st raw)) rest)"
  by (simp split: prod.splits)

text \<open>The bytes written depend on the lines alone, not on the store.\<close>

lemma encode_lines_bytes:
  "fst (snd (encode_lines st raws)) =
     concat (map (\<lambda>raw. if rstrip_nl raw = [] then [0] else digest (xxh32 (rstrip_nl raw))) raws)"
proof (induction raws arbitrary: st)
  case Nil
  show ?case by simp
next
  case (Cons raw rest)
  obtain st1 b1 w1 where e1: "encode_line st raw = (st1, b1, w1)"
    by (cases "encode_line st raw") auto
  obtain st2 b2 w2 where e2: "encode_lines st1 rest = (st2, b2, w2)"
    by (cases "encode_lines st1 rest") auto
  from Cons.IH [of st1] e2 encode_line_bytes [of st raw] e1
  show ?case by simp
qed

lemma encode_line_mono: "st k = Some v \<Longrightarrow> fst (encode_line st raw) k = Some v"
  by (simp add: encode_line_store add_item_mono)

lemma encode_lines_mono: "st k = Some v \<Longrightarrow> fst (encode_lines st raws) k = Some v"
proof (induction raws arbitrary: st)
  case Nil
  then show ?case by simp
next
  case (Cons raw rest)
  from Cons.prems have "fst (encode_line st raw) k = Some v" by (rule encode_line_mono)
  then have "fst (encode_lines (fst (encode_line st raw)) rest) k = Some v" by (rule Cons.IH)
  then show ?case by (simp only: encode_lines_Cons_store)
qed

text \<open>
  When different lines have different digests and the store holds nothing else under the
  digests of the lines, each non-empty line is found under its own digest after encoding.
\<close>

lemma encode_lines_store:
  assumes "inj_on (\<lambda>l. digest (xxh32 l)) (set (map rstrip_nl raws) - {[]})"
    and "\<forall>l \<in> set (map rstrip_nl raws) - {[]}.
           st (hexdigest (xxh32 l)) = None \<or> st (hexdigest (xxh32 l)) = Some l"
    and "l \<in> set (map rstrip_nl raws) - {[]}"
  shows "fst (encode_lines st raws) (hexdigest (xxh32 l)) = Some l"
  using assms
proof (induction raws arbitrary: st)
  case Nil
  then show ?case by simp
next
  case (Cons raw rest)
  let ?l0 = "rstrip_nl raw"
  let ?st1 = "fst (encode_line st raw)"
  have inj_rest: "inj_on (\<lambda>l. digest (xxh32 l)) (set (map rstrip_nl rest) - {[]})"
    using Cons.prems(1) by (rule inj_on_subset) auto
  have compat: "\<forall>l' \<in> set (map rstrip_nl rest) - {[]}.
      ?st1 (hexdigest (xxh32 l')) = None \<or> ?st1 (hexdigest (xxh32 l')) = Some l'"
  proof
    fix l' assume m: "l' \<in> set (map rstrip_nl rest) - {[]}"
    then have m': "l' \<in> set (map rstrip_nl (raw # rest)) - {[]}" by auto
    with Cons.prems(2)
    have c: "st (hexdigest (xxh32 l')) = None \<or> st (hexdigest (xxh32 l')) = Some l'"
      by blast
    show "?st1 (hexdigest (xxh32 l')) = None \<or> ?st1 (hexdigest (xxh32 l')) = Some l'"
    proof (cases "?l0 = []")
      case True
      with c show ?thesis by (simp add: encode_line_store)
    next
      case False
      then have m0: "?l0 \<in> set (map rstrip_nl (raw # rest)) - {[]}" by simp
      show ?thesis
      proof (cases "l' = ?l0")
        case True
        with False c show ?thesis by (auto simp: encode_line_store add_item_result)
      next
        case ne: False
        with Cons.prems(1) m' m0 have "digest (xxh32 l') \<noteq> digest (xxh32 ?l0)"
          by (auto dest: inj_onD)
        then have "hexdigest (xxh32 l') \<noteq> hexdigest (xxh32 ?l0)"
          by (simp add: hexdigest_eq_iff)
        with False c show ?thesis by (auto simp: encode_line_store add_item_result)
      qed
    qed
  qed
  show ?case
  proof (cases "l \<in> set (map rstrip_nl rest) - {[]}")
    case True
    from Cons.IH [OF inj_rest compat True] show ?thesis
      by (simp only: encode_lines_Cons_store)
  next
    case False
    with Cons.prems(3) have l: "l = ?l0" and ne: "?l0 \<noteq> []" by auto
    from Cons.prems(2) Cons.prems(3) have
      "st (hexdigest (xxh32 l)) = None \<or> st (hexdigest (xxh32 l)) = Some l" by blast
    with l ne have "?st1 (hexdigest (xxh32 l)) = Some l"
      by (auto simp: encode_line_store add_item_result)
    then have "fst (encode_lines ?st1 rest) (hexdigest (xxh32 l)) = Some l"
      by (rule encode_lines_mono)
    then show ?thesis by (simp only: encode_lines_Cons_store)
  qed
qed

lemma output_lines_append: "output_lines (xs @ ys) = output_lines xs @ output_lines ys"
  by (induction xs rule: output_lines.induct) simp_all

lemma output_lines_events:
  "output_lines (map (\<lambda>l. if l = [] then BlankLine else Line l) ls) = ls"
  by (induction ls) simp_all

text \<open>
  A stream that the decoder reads to its end without meeting an incomplete hash can be
  followed by any bytes: they are decoded as if they stood alone.
\<close>

lemma decode_loop_append:
  "IncompleteWarning \<notin> set (decode_loop st pre) \<Longrightarrow>
   decode_loop st (pre @ post) = decode_loop st pre @ decode_loop st post"
proof (induction st pre rule: decode_loop.induct)
  case (1 st)
  show ?case by simp
next
  case (2 st chunk rest)
  show ?case
  proof (cases "chunk = 0")
    case True
    with 2 show ?thesis by simp
  next
    case False
    show ?thesis
    proof (cases "length rest < 3")
      case True
      with False 2(3) show ?thesis by simp
    next
      case ge: False
      then have t: "take 3 (rest @ post) = take 3 rest"
        and d: "drop 3 (rest @ post) = drop 3 rest @ post"
        by simp_all
      from ge have l: "length (take 3 rest) = 3" by simp
      from False l 2(3) have "IncompleteWarning \<notin> set (decode_loop st (drop 3 rest))"
        by (simp add: Let_def)
      with 2(2) [OF False refl] l
      have "decode_loop st (drop 3 rest @ post) =
            decode_loop st (drop 3 rest) @ decode_loop st post"
        by simp
      with False t d l show ?thesis by (simp add: Let_def)
    qed
  qed
qed

lemma decode_loop_hash:
  "b0 \<noteq> 0 \<Longrightarrow>
   decode_loop st (b0 # b1 # b2 # b3 # post) = decode_hash st [b0, b1, b2, b3] # decode_loop st post"
  by simp

lemma decode_loop_short:
  "chunk \<noteq> 0 \<Longrightarrow> length rest < 3 \<Longrightarrow> decode_loop st (chunk # rest) = [IncompleteWarning]"
  by simp

lemma decode_loop_digest:
  "hd (digest h) \<noteq> 0 \<Longrightarrow>
   decode_loop st (digest h @ post) = decode_hash st (digest h) # decode_loop st post"
  by (simp add: digest_def)

lemma decode_hash_digest:
  "decode_hash st (digest h) =
     (case st (hexdigest h) of Some l \<Rightarrow> Line l | None \<Rightarrow> MissingWarning (hexdigest h))"
  by (simp add: decode_hash_def hexdigest_def Let_def split: option.splits)

lemma decode_loop_wire:
  assumes "\<forall>l \<in> set (map rstrip_nl raws) - {[]}.
             hd (digest (xxh32 l)) \<noteq> 0 \<and> st (hexdigest (xxh32 l)) = Some l"
  shows "decode_loop st
           (concat (map (\<lambda>raw. if rstrip_nl raw = [] then [0]
                                else digest (xxh32 (rstrip_nl raw))) raws)) =
         map (\<lambda>l. if l = [] then BlankLine else Line l) (map rstrip_nl raws)"
  using assms
proof (induction raws)
  case Nil
  show ?case by simp
next
  case (Cons raw rest)
  then have IH: "decode_loop st
           (concat (map (\<lambda>raw. if rstrip_nl raw = [] then [0]
                                else digest (xxh32 (rstrip_nl raw))) rest)) =
         map (\<lambda>l. if l = [] then BlankLine else Line l) (map rstrip_nl rest)"
    by simp
  show ?case
  proof (cases "rstrip_nl raw = []")
    case True
    with IH show ?thesis by simp
  next
    case False
    with Cons.prems have "hd (digest (xxh32 (rstrip_nl raw))) \<noteq> 0"
      and "st (hexdigest (xxh32 (rstrip_nl raw))) = Some (rstrip_nl raw)" by simp_all
    with False IH show ?thesis
      by (simp add: decode_loop_digest decode_hash_digest del: decode_loop.simps)
  qed
qed

section \<open>The claims\<close>

subsection \<open>C1: round trip\<close>

text \<open>
  C1, as stated, fails. The line \<open>aqc\<close> has the hash \<open>00b5dac6\<close>: its first byte is the
  marker of a blank line, so the decoder prints a blank line and then finds an incomplete
  hash. And when the store already holds \<open>tqt\<close>, whose hash \<open>5acd9445\<close> is also that of
  \<open>dluw\<close>, encoding the single line \<open>dluw\<close> and decoding gives \<open>tqt\<close>. In both cases
  the non-empty lines of the input have pairwise distinct hashes.
\<close>

theorem roundtrip_counterexample:
  "inj_on (\<lambda>l. digest (xxh32 l)) (set (map rstrip_nl [''aqc\<newline>'']) - {[]}) \<and>
   fst (snd (encode_lines Map.empty [''aqc\<newline>''])) = [0, 181, 218, 198] \<and>
   decode_loop (fst (encode_lines Map.empty [''aqc\<newline>''])) [0, 181, 218, 198] =
     [BlankLine, IncompleteWarning] \<and>
   output_lines [BlankLine, IncompleteWarning] \<noteq> map rstrip_nl [''aqc\<newline>''] \<and>
   inj_on (\<lambda>l. digest (xxh32 l)) (set (map rstrip_nl [''dluw\<newline>'']) - {[]}) \<and>
   fst (fst (seed_lines (Map.empty, 0, 0) [''tqt\<newline>''])) = Map.empty(''5acd9445'' \<mapsto> ''tqt'') \<and>
   encode_lines (Map.empty(''5acd9445'' \<mapsto> ''tqt'')) [''dluw\<newline>''] =
     (Map.empty(''5acd9445'' \<mapsto> ''tqt''), [90, 205, 148, 69],
      [CollisionWarning ''5acd9445'' ''tqt'' ''dluw'']) \<and>
   decode_loop (Map.empty(''5acd9445'' \<mapsto> ''tqt'')) [90, 205, 148, 69] = [Line ''tqt''] \<and>
   output_lines [Line ''tqt''] \<noteq> map rstrip_nl [''dluw\<newline>'']"
  by (simp add: encode_line_def seed_line_def rstrip_nl_def add_item_result
      digest_aqc digest_dluw hexdigest_tqt hexdigest_dluw decode_hash_def hex_def hex_byte_def
      hex_digit_def Let_def)

text \<open>
  C1, amended. Take any lines and any store such that different non-empty lines have
  different 4-byte hashes, no hash of a non-empty line starts with the byte 0, and the
  store holds no other line under the hash of a non-empty line. Then decoding the stream
  written by the encoder, against the store the encoder leaves, prints exactly the lines,
  a blank line for each empty one, and no warning. In particular the lines \<open>foo\<close>, the
  empty line and \<open>bar\<close>, encoded against the empty store, give the 9 bytes of the hash
  of \<open>foo\<close>, the byte 0 and the hash of \<open>bar\<close>, which decode to the three lines.
\<close>

theorem roundtrip_without_collisions:
  assumes "inj_on (\<lambda>l. digest (xxh32 l)) (set (map rstrip_nl raws) - {[]})"
    and "\<forall>l \<in> set (map rstrip_nl raws) - {[]}. hd (digest (xxh32 l)) \<noteq> 0"
    and "\<forall>l \<in> set (map rstrip_nl raws) - {[]}.
           st (hexdigest (xxh32 l)) = None \<or> st (hexdigest (xxh32 l)) = Some l"
    and "encode_lines st raws = (st', bs, w)"
  shows "decode_loop st' bs =
           map (\<lambda>l. if l = [] then BlankLine else Line l) (map rstrip_nl raws) \<and>
         output_lines (decode_loop st' bs) = map rstrip_nl raws \<and>
         encode_lines Map.empty [''foo\<newline>'', ''\<newline>'', ''bar\<newline>''] =
           (Map.empty(hexdigest (xxh32 ''foo'') \<mapsto> ''foo'', hexdigest (xxh32 ''bar'') \<mapsto> ''bar''),
            digest (xxh32 ''foo'') @ [0] @ digest (xxh32 ''bar''), []) \<and>
         length (digest (xxh32 ''foo'') @ [0] @ digest (xxh32 ''bar'')) = 9 \<and>
         output_lines
           (decode_loop
              (Map.empty(hexdigest (xxh32 ''foo'') \<mapsto> ''foo'', hexdigest (xxh32 ''bar'') \<mapsto> ''bar''))
              (digest (xxh32 ''foo'') @ [0] @ digest (xxh32 ''bar''))) =
           [''foo'', '''', ''bar'']"
proof -
  from assms(4) have st': "st' = fst (encode_lines st raws)"
    and bs: "bs = fst (snd (encode_lines st raws))"
    by simp_all
  have "\<forall>l \<in> set (map rstrip_nl raws) - {[]}.
          hd (digest (xxh32 l)) \<noteq> 0 \<and> st' (hexdigest (xxh32 l)) = Some l"
    using assms(2) encode_lines_store [OF assms(1) assms(3)] st' by blast
  then have general: "decode_loop st' bs =
      map (\<lambda>l. if l = [] then BlankLine else Line l) (map rstrip_nl raws)"
    unfolding bs encode_lines_bytes by (rule decode_loop_wire)
  have enc: "encode_lines Map.empty [''foo\<newline>'', ''\<newline>'', ''bar\<newline>''] =
           (Map.empty(hexdigest (xxh32 ''foo'') \<mapsto> ''foo'', hexdigest (xxh32 ''bar'') \<mapsto> ''bar''),
            digest (xxh32 ''foo'') @ [0] @ digest (xxh32 ''bar''), [])"
    by (simp add: encode_line_def rstrip_nl_def add_item_result hexdigest_foo hexdigest_bar Let_def)
  have dec: "output_lines
           (decode_loop
              (Map.empty(hexdigest (xxh32 ''foo'') \<mapsto> ''foo'', hexdigest (xxh32 ''bar'') \<mapsto> ''bar''))
              (digest (xxh32 ''foo'') @ [0] @ digest (xxh32 ''bar''))) =
           [''foo'', '''', ''bar'']"
    by (simp add: decode_loop_digest decode_hash_digest digest_foo digest_bar
        hexdigest_foo hexdigest_bar del: decode_loop.simps)
       (simp add: decode_hash_def hex_def hex_byte_def hex_digit_def)
  have len: "length (digest (xxh32 ''foo'') @ [0] @ digest (xxh32 ''bar'')) = 9"
    by (simp add: length_digest)
  from general have out: "output_lines (decode_loop st' bs) = map rstrip_nl raws"
    by (simp only: output_lines_events)
  from general out enc len dec show ?thesis
    by (intro conjI)
qed

theorem roundtrip_without_collisions_witness:
  "inj_on (\<lambda>l. digest (xxh32 l)) (set (map rstrip_nl [''foo\<newline>'', ''\<newline>'', ''bar'']) - {[]}) \<and>
   encode_lines Map.empty [''foo\<newline>'', ''\<newline>'', ''bar''] =
     (Map.empty(''e20f0dd9'' \<mapsto> ''foo'', ''41a22b2c'' \<mapsto> ''bar''),
      [226, 15, 13, 217, 0, 65, 162, 43, 44], []) \<and>
   decode_loop (Map.empty(''e20f0dd9'' \<mapsto> ''foo'', ''41a22b2c'' \<mapsto> ''bar''))
      [226, 15, 13, 217, 0, 65, 162, 43, 44] = [Line ''foo'', BlankLine, Line ''bar''] \<and>
   output_lines
     (decode_loop (Map.empty(''e20f0dd9'' \<mapsto> ''foo'', ''41a22b2c'' \<mapsto> ''bar''))
        [226, 15, 13, 217, 0, 65, 162, 43, 44]) = [''foo'', '''', ''bar'']"
proof -
  have r: "map rstrip_nl [''foo\<newline>'', ''\<newline>'', ''bar''] = [''foo'', '''', ''bar'']"
    by (simp add: rstrip_nl_def)
  have s: "set [''foo'', '''', ''bar''] - {[]} = {''foo'', ''bar''}" by auto
  have h1: "inj_on (\<lambda>l. digest (xxh32 l)) (set (map rstrip_nl [''foo\<newline>'', ''\<newline>'', ''bar'']) - {[]})"
    unfolding r s by (simp add: digest_foo digest_bar)
  have h2: "\<forall>l \<in> set (map rstrip_nl [''foo\<newline>'', ''\<newline>'', ''bar'']) - {[]}. hd (digest (xxh32 l)) \<noteq> 0"
    unfolding r s by (simp add: digest_foo digest_bar)
  have h3: "\<forall>l \<in> set (map rstrip_nl [''foo\<newline>'', ''\<newline>'', ''bar'']) - {[]}.
           Map.empty (hexdigest (xxh32 l)) = None \<or> Map.empty (hexdigest (xxh32 l)) = Some l"
    by simp
  have e: "encode_lines Map.empty [''foo\<newline>'', ''\<newline>'', ''bar''] =
     (Map.empty(''e20f0dd9'' \<mapsto> ''foo'', ''41a22b2c'' \<mapsto> ''bar''),
      [226, 15, 13, 217, 0, 65, 162, 43, 44], [])"
    by (simp add: encode_line_def rstrip_nl_def add_item_result hexdigest_foo hexdigest_bar
        digest_foo digest_bar Let_def)
  from roundtrip_without_collisions [OF h1 h2 h3 e] h1 e r show ?thesis by simp
qed

subsection \<open>C2: a collision does not overwrite\<close>

text \<open>
  C2, as stated for every hash, fails in its last part. The hash of \<open>aqc\<close> is
  \<open>00b5dac6\<close>. Inserting \<open>aqc\<close> into the empty store returns true, inserting \<open>zzz\<close>
  under the same hash returns false, warns and leaves the store as it is; but decoding
  the four bytes of that hash prints a blank line and the warning of an incomplete hash,
  not the line \<open>aqc\<close>: the first byte is the marker of a blank line.
\<close>

theorem add_item_collision_counterexample:
  "Map.empty (hexdigest (xxh32 ''aqc'')) = None \<and> ''aqc'' \<noteq> ''zzz'' \<and>
   add_item Map.empty (xxh32 ''aqc'') ''aqc'' = (True, Map.empty(''00b5dac6'' \<mapsto> ''aqc''), []) \<and>
   add_item (Map.empty(''00b5dac6'' \<mapsto> ''aqc'')) (xxh32 ''aqc'') ''zzz'' =
     (False, Map.empty(''00b5dac6'' \<mapsto> ''aqc''), [CollisionWarning ''00b5dac6'' ''aqc'' ''zzz'']) \<and>
   digest (xxh32 ''aqc'') = [0, 181, 218, 198] \<and>
   decode_loop (Map.empty(''00b5dac6'' \<mapsto> ''aqc'')) (digest (xxh32 ''aqc'')) =
     [BlankLine, IncompleteWarning] \<and>
   Line ''aqc'' \<notin> set (decode_loop (Map.empty(''00b5dac6'' \<mapsto> ''aqc'')) (digest (xxh32 ''aqc'')))"
  by (simp add: add_item_result hexdigest_aqc digest_aqc)

text \<open>
  C2, amended. For every hash \<open>h\<close> and different lines \<open>l1\<close> and \<open>l2\<close>: when the store has
  no entry for \<open>h\<close>, \<open>add_item\<close> of \<open>l1\<close> returns true and stores it; \<open>add_item\<close> of \<open>l2\<close>
  under the same hash then returns false, leaves the store as it is, so that the entry
  for \<open>h\<close> is still \<open>l1\<close>, and prints the warning that names the hash, the line stored
  and the line rejected. The lookup of the decoder on the four bytes of \<open>h\<close> gives \<open>l1\<close>.
  Decoding the four bytes as a stream never prints \<open>l2\<close>, and prints exactly \<open>l1\<close>
  provided the first byte of \<open>h\<close> is not 0, the marker of a blank line.
\<close>

theorem add_item_collision_keeps_first:
  assumes "st (hexdigest h) = None" and "l1 \<noteq> l2"
  shows "add_item st h l1 = (True, st(hexdigest h \<mapsto> l1), []) \<and>
         add_item (st(hexdigest h \<mapsto> l1)) h l2 =
           (False, st(hexdigest h \<mapsto> l1), [CollisionWarning (hexdigest h) l1 l2]) \<and>
         (st(hexdigest h \<mapsto> l1)) (hexdigest h) = Some l1 \<and>
         decode_hash (st(hexdigest h \<mapsto> l1)) (digest h) = Line l1 \<and>
         Line l2 \<notin> set (decode_loop (st(hexdigest h \<mapsto> l1)) (digest h)) \<and>
         (hd (digest h) \<noteq> 0 \<longrightarrow> decode_loop (st(hexdigest h \<mapsto> l1)) (digest h) = [Line l1])"
proof -
  let ?st1 = "st(hexdigest h \<mapsto> l1)"
  have a: "add_item st h l1 = (True, ?st1, [])"
    using assms(1) by (simp add: add_item_result)
  have b: "add_item ?st1 h l2 = (False, ?st1, [CollisionWarning (hexdigest h) l1 l2])"
    using assms(2) by (simp add: add_item_result)
  have c: "decode_hash ?st1 (digest h) = Line l1"
    by (simp add: decode_hash_digest)
  have d: "hd (digest h) \<noteq> 0 \<longrightarrow> decode_loop ?st1 (digest h) = [Line l1]"
    using decode_loop_digest [of h ?st1 "[]"] c by simp
  have e: "Line l2 \<notin> set (decode_loop ?st1 (digest h))"
  proof (cases "hd (digest h) = 0")
    case False
    with d assms(2) show ?thesis by simp
  next
    case True
    then show ?thesis by (simp add: digest_def Let_def)
  qed
  from a b c d e show ?thesis by simp
qed

theorem add_item_collision_keeps_first_witness:
  "Map.empty (hexdigest (xxh32 ''tqt'')) = None \<and> ''tqt'' \<noteq> ''dluw'' \<and>
   hexdigest (xxh32 ''tqt'') = ''5acd9445'' \<and> hd (digest (xxh32 ''tqt'')) \<noteq> 0 \<and>
   add_item Map.empty (xxh32 ''tqt'') ''tqt'' = (True, Map.empty(''5acd9445'' \<mapsto> ''tqt''), []) \<and>
   add_item (Map.empty(''5acd9445'' \<mapsto> ''tqt'')) (xxh32 ''tqt'') ''dluw'' =
     (False, Map.empty(''5acd9445'' \<mapsto> ''tqt''), [CollisionWarning ''5acd9445'' ''tqt'' ''dluw'']) \<and>
   decode_loop (Map.empty(''5acd9445'' \<mapsto> ''tqt'')) (digest (xxh32 ''tqt'')) = [Line ''tqt'']"
proof -
  have h1: "Map.empty (hexdigest (xxh32 ''tqt'')) = None" by simp
  have h2: "''tqt'' \<noteq> ''dluw''" by simp
  have h3: "hd (digest (xxh32 ''tqt'')) \<noteq> 0" by (simp add: digest_tqt)
  from add_item_collision_keeps_first [where st = Map.empty and h = "xxh32 ''tqt''", OF h1 h2]
    h3 h2 show ?thesis
    by (simp add: hexdigest_tqt)
qed

subsection \<open>C3: the encoder writes a hash for every non-empty line\<close>

text \<open>
  C3, as stated, fails in its last part. Let the store hold \<open>zzz\<close> under \<open>00b5dac6\<close>,
  the hash of \<open>aqc\<close>. Encoding the line \<open>aqc\<close> is rejected as a collision and the four
  bytes of the hash are written all the same; but decoding them prints a blank line and
  the warning of an incomplete hash, not the line \<open>zzz\<close> that the store holds.
\<close>

theorem encode_collision_counterexample:
  "rstrip_nl ''aqc\<newline>'' = ''aqc'' \<and>
   (Map.empty(''00b5dac6'' \<mapsto> ''zzz'')) (hexdigest (xxh32 ''aqc'')) = Some ''zzz'' \<and>
   ''zzz'' \<noteq> ''aqc'' \<and>
   fst (add_item (Map.empty(''00b5dac6'' \<mapsto> ''zzz'')) (xxh32 ''aqc'') ''aqc'') = False \<and>
   encode_line (Map.empty(''00b5dac6'' \<mapsto> ''zzz'')) ''aqc\<newline>'' =
     (Map.empty(''00b5dac6'' \<mapsto> ''zzz''), [0, 181, 218, 198],
      [CollisionWarning ''00b5dac6'' ''zzz'' ''aqc'']) \<and>
   decode_loop (Map.empty(''00b5dac6'' \<mapsto> ''zzz'')) [0, 181, 218, 198] =
     [BlankLine, IncompleteWarning] \<and>
   Line ''zzz'' \<notin> set (decode_loop (Map.empty(''00b5dac6'' \<mapsto> ''zzz'')) [0, 181, 218, 198])"
  by (simp add: encode_line_def rstrip_nl_def add_item_result hexdigest_aqc digest_aqc Let_def)

text \<open>
  C3, amended. The bytes the encoder writes are, line by line, the byte 0 for an empty
  line and the four bytes of the line's hash for any other, whatever the store holds and
  so whatever \<open>add_item\<close> returns. In particular, when the store holds another line
  under the hash of the line, \<open>add_item\<close> returns false and warns, the store is left as
  it is and the four bytes written are still that hash; the lookup of the decoder on
  them gives the other line, and decoding them as a stream prints the other line
  provided the first byte of the hash is not 0, the marker of a blank line.
\<close>

theorem encode_emits_hash_for_every_line:
  "fst (snd (encode_lines st raws)) =
     concat (map (\<lambda>raw. if rstrip_nl raw = [] then [0] else digest (xxh32 (rstrip_nl raw))) raws) \<and>
   (rstrip_nl raw \<noteq> [] \<longrightarrow>
      fst (snd (encode_line st raw)) = digest (xxh32 (rstrip_nl raw)) \<and>
      length (fst (snd (encode_line st raw))) = 4) \<and>
   (rstrip_nl raw \<noteq> [] \<and> st (hexdigest (xxh32 (rstrip_nl raw))) = Some other \<and>
    other \<noteq> rstrip_nl raw \<longrightarrow>
      fst (add_item st (xxh32 (rstrip_nl raw)) (rstrip_nl raw)) = False \<and>
      encode_line st raw =
        (st, digest (xxh32 (rstrip_nl raw)),
         [CollisionWarning (hexdigest (xxh32 (rstrip_nl raw))) other (rstrip_nl raw)]) \<and>
      decode_hash st (digest (xxh32 (rstrip_nl raw))) = Line other \<and>
      (hd (digest (xxh32 (rstrip_nl raw))) \<noteq> 0 \<longrightarrow>
         decode_loop st (digest (xxh32 (rstrip_nl raw))) = [Line other]))"
proof -
  have a: "rstrip_nl raw \<noteq> [] \<longrightarrow>
      fst (snd (encode_line st raw)) = digest (xxh32 (rstrip_nl raw)) \<and>
      length (fst (snd (encode_line st raw))) = 4"
    by (simp add: encode_line_bytes length_digest)
  have b: "rstrip_nl raw \<noteq> [] \<and> st (hexdigest (xxh32 (rstrip_nl raw))) = Some other \<and>
    other \<noteq> rstrip_nl raw \<longrightarrow>
      fst (add_item st (xxh32 (rstrip_nl raw)) (rstrip_nl raw)) = False \<and>
      encode_line st raw =
        (st, digest (xxh32 (rstrip_nl raw)),
         [CollisionWarning (hexdigest (xxh32 (rstrip_nl raw))) other (rstrip_nl raw)]) \<and>
      decode_hash st (digest (xxh32 (rstrip_nl raw))) = Line other \<and>
      (hd (digest (xxh32 (rstrip_nl raw))) \<noteq> 0 \<longrightarrow>
         decode_loop st (digest (xxh32 (rstrip_nl raw))) = [Line other])"
    using decode_loop_digest [of "xxh32 (rstrip_nl raw)" st "[]"]
    by (simp add: encode_line_def add_item_result decode_hash_digest Let_def)
  from encode_lines_bytes [of st raws] a b show ?thesis by (intro conjI)
qed

theorem encode_emits_hash_for_every_line_witness:
  "rstrip_nl ''dluw\<newline>'' = ''dluw'' \<and>
   (Map.empty(''5acd9445'' \<mapsto> ''tqt'')) (hexdigest (xxh32 ''dluw'')) = Some ''tqt'' \<and>
   hd (digest (xxh32 ''dluw'')) \<noteq> 0 \<and>
   fst (snd (encode_lines (Map.empty(''5acd9445'' \<mapsto> ''tqt'')) [''tqt\<newline>'', ''\<newline>'', ''dluw\<newline>''])) =
     [90, 205, 148, 69, 0, 90, 205, 148, 69] \<and>
   encode_line (Map.empty(''5acd9445'' \<mapsto> ''tqt'')) ''dluw\<newline>'' =
     (Map.empty(''5acd9445'' \<mapsto> ''tqt''), [90, 205, 148, 69],
      [CollisionWarning ''5acd9445'' ''tqt'' ''dluw'']) \<and>
   decode_loop (Map.empty(''5acd9445'' \<mapsto> ''tqt'')) [90, 205, 148, 69] = [Line ''tqt'']"
proof -
  have r: "rstrip_nl ''dluw\<newline>'' = ''dluw''" "rstrip_nl ''tqt\<newline>'' = ''tqt''"
    "rstrip_nl ''\<newline>'' = []"
    by (simp_all add: rstrip_nl_def)
  from encode_emits_hash_for_every_line
    [of "Map.empty(''5acd9445'' \<mapsto> ''tqt'')" "[''tqt\<newline>'', ''\<newline>'', ''dluw\<newline>'']"
        "''dluw\<newline>''" "''tqt''"]
  show ?thesis
    by (simp add: r digest_dluw digest_tqt hexdigest_dluw)
qed

subsection \<open>C4: an incomplete hash at the end of the stream\<close>

text \<open>
  C4. Let the decoder have read a part of the stream to its end without meeting an
  incomplete hash. If the next byte is not the marker and fewer than three bytes follow
  it, the decoder prints the warning of an incomplete hash and stops: what it printed for
  the part before is kept, nothing is printed for the incomplete record, and nothing
  follows the warning but the closing message of \<open>decode_and_print\<close>.
\<close>

theorem decode_stops_at_incomplete_hash:
  assumes "IncompleteWarning \<notin> set (decode_loop st pre)" and "chunk \<noteq> 0" and "length rest < 3"
  shows "decode_loop st (pre @ chunk # rest) = decode_loop st pre @ [IncompleteWarning] \<and>
         output_lines (decode_loop st (pre @ chunk # rest)) = output_lines (decode_loop st pre) \<and>
         (path_exists os hash_file \<and> binary_file os hash_file = Some (pre @ chunk # rest) \<longrightarrow>
            decode_and_print os st hash_file =
              (Decoding hash_file # decode_loop st pre @ [IncompleteWarning, DecodingComplete],
               Return st))"
  using assms
  by (simp add: decode_loop_append decode_loop_short output_lines_append decode_and_print_def
      del: decode_loop.simps)

theorem decode_stops_at_incomplete_hash_witness:
  "IncompleteWarning \<notin> set (decode_loop (Map.empty(''e20f0dd9'' \<mapsto> ''foo'')) [226, 15, 13, 217, 0]) \<and>
   (65 :: byte) \<noteq> 0 \<and> length [162, 43 :: byte] < 3 \<and>
   decode_loop (Map.empty(''e20f0dd9'' \<mapsto> ''foo'')) ([226, 15, 13, 217, 0] @ 65 # [162, 43]) =
     [Line ''foo'', BlankLine, IncompleteWarning] \<and>
   output_lines (decode_loop (Map.empty(''e20f0dd9'' \<mapsto> ''foo'')) ([226, 15, 13, 217, 0] @ 65 # [162, 43])) =
     [''foo'', '''']"
proof -
  have d: "decode_loop (Map.empty(''e20f0dd9'' \<mapsto> ''foo'')) [226, 15, 13, 217, 0] = [Line ''foo'', BlankLine]"
    by (simp add: decode_hash_def hex_def hex_byte_def hex_digit_def Let_def)
  have h1: "IncompleteWarning \<notin> set (decode_loop (Map.empty(''e20f0dd9'' \<mapsto> ''foo'')) [226, 15, 13, 217, 0])"
    by (simp only: d) simp
  have h2: "(65 :: byte) \<noteq> 0" by simp
  have h3: "length [162, 43 :: byte] < 3" by simp
  from decode_stops_at_incomplete_hash [OF h1 h2 h3] h1 d show ?thesis
    by (simp del: decode_loop.simps)
qed

subsection \<open>C8: a hash that the store does not hold\<close>

text \<open>
  C8. Let the decoder have read a part of the stream to its end without meeting an
  incomplete hash. If four bytes follow, the first of which is not the marker, and the
  store has no entry for them, the decoder prints the warning that names the missing
  hash, prints no line for it, and goes on: the bytes after them are decoded as they
  would be on their own, and so are the bytes before.
\<close>

theorem decode_skips_missing_hash:
  assumes "IncompleteWarning \<notin> set (decode_loop st pre)" and "b0 \<noteq> 0"
    and "st (hex [b0, b1, b2, b3]) = None"
  shows "decode_loop st (pre @ [b0, b1, b2, b3] @ post) =
           decode_loop st pre @ [MissingWarning (hex [b0, b1, b2, b3])] @ decode_loop st post \<and>
         output_lines (decode_loop st (pre @ [b0, b1, b2, b3] @ post)) =
           output_lines (decode_loop st pre) @ output_lines (decode_loop st post)"
  using assms
  by (simp add: decode_loop_append decode_loop_hash output_lines_append decode_hash_def Let_def
      del: decode_loop.simps)

theorem decode_skips_missing_hash_witness:
  "IncompleteWarning \<notin> set (decode_loop (Map.empty(''e20f0dd9'' \<mapsto> ''foo'')) [226, 15, 13, 217]) \<and>
   (65 :: byte) \<noteq> 0 \<and> (Map.empty(''e20f0dd9'' \<mapsto> ''foo'')) (hex [65, 162, 43, 44]) = None \<and>
   decode_loop (Map.empty(''e20f0dd9'' \<mapsto> ''foo''))
     ([226, 15, 13, 217] @ [65, 162, 43, 44] @ [0, 226, 15, 13, 217]) =
     [Line ''foo'', MissingWarning ''41a22b2c'', BlankLine, Line ''foo''] \<and>
   output_lines (decode_loop (Map.empty(''e20f0dd9'' \<mapsto> ''foo''))
     ([226, 15, 13, 217] @ [65, 162, 43, 44] @ [0, 226, 15, 13, 217])) = [''foo'', '''', ''foo'']"
proof -
  have d: "decode_loop (Map.empty(''e20f0dd9'' \<mapsto> ''foo'')) [226, 15, 13, 217] = [Line ''foo'']"
    by (simp add: decode_hash_def hex_def hex_byte_def hex_digit_def Let_def)
  have p: "decode_loop (Map.empty(''e20f0dd9'' \<mapsto> ''foo'')) [0, 226, 15, 13, 217] = [BlankLine, Line ''foo'']"
    by (simp add: decode_hash_def hex_def hex_byte_def hex_digit_def Let_def)
  have x: "hex [65, 162, 43, 44] = ''41a22b2c''"
    by (simp add: hex_def hex_byte_def hex_digit_def)
  have h1: "IncompleteWarning \<notin> set (decode_loop (Map.empty(''e20f0dd9'' \<mapsto> ''foo'')) [226, 15, 13, 217])"
    by (simp only: d) simp
  have h2: "(65 :: byte) \<noteq> 0" by simp
  have h3: "(Map.empty(''e20f0dd9'' \<mapsto> ''foo'')) (hex [65, 162, 43, 44]) = None"
    by (simp add: x)
  note t = decode_skips_missing_hash [OF h1 h2 h3, of "[0, 226, 15, 13, 217]"]
  from t have t1: "decode_loop (Map.empty(''e20f0dd9'' \<mapsto> ''foo''))
     ([226, 15, 13, 217] @ [65, 162, 43, 44] @ [0, 226, 15, 13, 217]) =
     [Line ''foo'', MissingWarning ''41a22b2c'', BlankLine, Line ''foo'']"
    by (simp only: d p x append.simps)
  have t2: "output_lines (decode_loop (Map.empty(''e20f0dd9'' \<mapsto> ''foo''))
     ([226, 15, 13, 217] @ [65, 162, 43, 44] @ [0, 226, 15, 13, 217])) = [''foo'', '''', ''foo'']"
    by (simp only: t1) simp
  from h1 h2 h3 t1 t2 show ?thesis by (intro conjI)
qed

subsection \<open>C9: decoding leaves the store as it is\<close>

text \<open>
  C9. For every store and every hash file, \<open>decode_and_print\<close> either exits or returns
  the very store it was given: on a file of bytes \<open>bs\<close> it prints what the loop prints
  for \<open>bs\<close> and returns the store unchanged. Hence the store that \<open>main\<close> saves after a
  decode is the store it loaded.
\<close>

theorem decode_leaves_store_unchanged:
  "(snd (decode_and_print os st hash_file) = Return st \<or>
    snd (decode_and_print os st hash_file) = SysExit 1) \<and>
   (path_exists os hash_file \<and> binary_file os hash_file = Some bs \<longrightarrow>
      decode_and_print os st hash_file =
        (Decoding hash_file # decode_loop st bs @ [DecodingComplete], Return st)) \<and>
   (HashStore_load os (arg_db a) = (ev0, Return st) \<and> given (arg_seed a) = None \<and>
    given (arg_input a) = None \<and> given (arg_decode a) = Some hash_file \<and>
    path_exists os hash_file \<and> binary_file os hash_file = Some bs \<and>
    \<not> write_fails os (arg_db a) \<longrightarrow>
      fst (snd (main os a)) = Return () \<and>
      store_file (snd (snd (main os a))) (arg_db a) = Inr st)"
  by (simp add: decode_and_print_def main_def run_command_def HashStore_save_def
      split: option.splits)

theorem decode_leaves_store_unchanged_witness:
  "HashStore_load
     (empty_os\<lparr>path_exists := (\<lambda>p. True), binary_file := (\<lambda>p. Some [226, 15, 13, 217, 0]),
        store_file := (\<lambda>p. Inr (Map.empty(''e20f0dd9'' \<mapsto> ''foo'')))\<rparr>) ''dedupe_main.db'' =
     ([StoreLoaded ''dedupe_main.db''], Return (Map.empty(''e20f0dd9'' \<mapsto> ''foo''))) \<and>
   decode_and_print
     (empty_os\<lparr>path_exists := (\<lambda>p. True), binary_file := (\<lambda>p. Some [226, 15, 13, 217, 0]),
        store_file := (\<lambda>p. Inr (Map.empty(''e20f0dd9'' \<mapsto> ''foo'')))\<rparr>)
     (Map.empty(''e20f0dd9'' \<mapsto> ''foo'')) ''h.bin'' =
     ([Decoding ''h.bin'', Line ''foo'', BlankLine, DecodingComplete],
      Return (Map.empty(''e20f0dd9'' \<mapsto> ''foo''))) \<and>
   store_file
     (snd (snd (main
        (empty_os\<lparr>path_exists := (\<lambda>p. True), binary_file := (\<lambda>p. Some [226, 15, 13, 217, 0]),
           store_file := (\<lambda>p. Inr (Map.empty(''e20f0dd9'' \<mapsto> ''foo'')))\<rparr>)
        \<lparr>arg_db = ''dedupe_main.db'', arg_seed = None, arg_input = None,
         arg_decode = Some ''h.bin'', arg_output = None\<rparr>))) ''dedupe_main.db'' =
     Inr (Map.empty(''e20f0dd9'' \<mapsto> ''foo''))"
proof -
  let ?os = "empty_os\<lparr>path_exists := (\<lambda>p. True), binary_file := (\<lambda>p. Some [226, 15, 13, 217, 0]),
        store_file := (\<lambda>p. Inr (Map.empty(''e20f0dd9'' \<mapsto> ''foo'')))\<rparr>"
  let ?a = "\<lparr>arg_db = ''dedupe_main.db'', arg_seed = None, arg_input = None,
         arg_decode = Some ''h.bin'', arg_output = None\<rparr>"
  let ?st = "Map.empty(''e20f0dd9'' \<mapsto> ''foo'')"
  have l: "HashStore_load ?os ''dedupe_main.db'' = ([StoreLoaded ''dedupe_main.db''], Return ?st)"
    by (simp add: HashStore_load_def empty_os_def)
  have d: "decode_loop ?st [226, 15, 13, 217, 0] = [Line ''foo'', BlankLine]"
    by (simp add: decode_hash_def hex_def hex_byte_def hex_digit_def Let_def)
  have hyp: "HashStore_load ?os (arg_db ?a) = ([StoreLoaded ''dedupe_main.db''], Return ?st) \<and>
    given (arg_seed ?a) = None \<and> given (arg_input ?a) = None \<and>
    given (arg_decode ?a) = Some ''h.bin'' \<and> path_exists ?os ''h.bin'' \<and>
    binary_file ?os ''h.bin'' = Some [226, 15, 13, 217, 0] \<and> \<not> write_fails ?os (arg_db ?a)"
    using l by (simp add: given_def empty_os_def)
  note t = decode_leaves_store_unchanged
    [of ?os ?st "''h.bin''" "[226, 15, 13, 217, 0]" ?a "[StoreLoaded ''dedupe_main.db'']"]
  from t hyp have t2: "decode_and_print ?os ?st ''h.bin'' =
        (Decoding ''h.bin'' # decode_loop ?st [226, 15, 13, 217, 0] @ [DecodingComplete], Return ?st)"
    and t3: "store_file (snd (snd (main ?os ?a))) (arg_db ?a) = Inr ?st"
    by blast+
  from t2 have t2': "decode_and_print ?os ?st ''h.bin'' =
     ([Decoding ''h.bin'', Line ''foo'', BlankLine, DecodingComplete], Return ?st)"
    by (simp only: d append.simps)
  from t3 have t3': "store_file (snd (snd (main ?os ?a))) ''dedupe_main.db'' = Inr ?st"
    by simp
  from l t2' t3' show ?thesis by (intro conjI)
qed

subsection \<open>C10: a line of white space is not a blank line\<close>

text \<open>The line of two spaces and a tab.\<close>

lemma hexdigest_spaces: "hexdigest (xxh32 [CHR 0x20, CHR 0x20, CHR 0x09]) = ''c3168ffb''"
  by code_simp

lemma rstrip_nl_Nil_iff: "rstrip_nl raw = [] \<longleftrightarrow> set raw \<subseteq> {CHR 0x0A}"
  by (auto simp: rstrip_nl_def dropWhile_eq_Nil_conv)

text \<open>
  C10. The test of the encoder and of the seeding is on the line after \<open>rstrip_nl\<close>, which
  removes line feeds only. So every line that is not empty after it, and in particular
  every line of spaces and tabs, is hashed as it stands and handed to \<open>add_item\<close> with
  its white space, by the encoder, which writes the four bytes of its hash, and by the
  seeding, which counts it; afterwards the store has an entry under its hash, namely the
  line itself if there was none. The encoder writes the marker of a blank line exactly
  when the line is empty after \<open>rstrip_nl\<close>, that is, when it consists of line feeds only.
\<close>

theorem whitespace_line_is_hashed:
  assumes "rstrip_nl raw \<noteq> []"
  shows "encode_line st raw =
           (fst (snd (add_item st (xxh32 (rstrip_nl raw)) (rstrip_nl raw))),
            digest (xxh32 (rstrip_nl raw)),
            snd (snd (add_item st (xxh32 (rstrip_nl raw)) (rstrip_nl raw)))) \<and>
         seed_line (st, t, u) raw =
           ((fst (snd (add_item st (xxh32 (rstrip_nl raw)) (rstrip_nl raw))), t + 1,
             if fst (add_item st (xxh32 (rstrip_nl raw)) (rstrip_nl raw)) then u + 1 else u),
            snd (snd (add_item st (xxh32 (rstrip_nl raw)) (rstrip_nl raw)))) \<and>
         fst (encode_line st raw) (hexdigest (xxh32 (rstrip_nl raw))) \<noteq> None \<and>
         (st (hexdigest (xxh32 (rstrip_nl raw))) = None \<longrightarrow>
            fst (encode_line st raw) (hexdigest (xxh32 (rstrip_nl raw))) = Some (rstrip_nl raw)) \<and>
         (fst (snd (encode_line st' raw')) = [0] \<longleftrightarrow> rstrip_nl raw' = []) \<and>
         (rstrip_nl raw' = [] \<longleftrightarrow> set raw' \<subseteq> {CHR 0x0A})"
proof -
  have a: "encode_line st raw =
           (fst (snd (add_item st (xxh32 (rstrip_nl raw)) (rstrip_nl raw))),
            digest (xxh32 (rstrip_nl raw)),
            snd (snd (add_item st (xxh32 (rstrip_nl raw)) (rstrip_nl raw))))"
    using assms by (simp add: encode_line_def Let_def split: prod.splits)
  have b: "seed_line (st, t, u) raw =
           ((fst (snd (add_item st (xxh32 (rstrip_nl raw)) (rstrip_nl raw))), t + 1,
             if fst (add_item st (xxh32 (rstrip_nl raw)) (rstrip_nl raw)) then u + 1 else u),
            snd (snd (add_item st (xxh32 (rstrip_nl raw)) (rstrip_nl raw))))"
    using assms by (simp add: seed_line_def Let_def split: prod.splits)
  have c: "fst (encode_line st raw) (hexdigest (xxh32 (rstrip_nl raw))) \<noteq> None"
    using assms by (simp add: encode_line_store add_item_result)
  have d: "st (hexdigest (xxh32 (rstrip_nl raw))) = None \<longrightarrow>
            fst (encode_line st raw) (hexdigest (xxh32 (rstrip_nl raw))) = Some (rstrip_nl raw)"
    using assms by (simp add: encode_line_store add_item_result)
  have e: "fst (snd (encode_line st' raw')) = [0] \<longleftrightarrow> rstrip_nl raw' = []"
    by (simp add: encode_line_bytes digest_def)
  from a b c d e rstrip_nl_Nil_iff [of raw'] show ?thesis by (intro conjI)
qed

theorem whitespace_line_is_hashed_witness:
  "rstrip_nl [CHR 0x20, CHR 0x20, CHR 0x09, CHR 0x0A] = [CHR 0x20, CHR 0x20, CHR 0x09] \<and>
   encode_line Map.empty [CHR 0x20, CHR 0x20, CHR 0x09, CHR 0x0A] =
     (Map.empty(''c3168ffb'' \<mapsto> [CHR 0x20, CHR 0x20, CHR 0x09]), [195, 22, 143, 251], []) \<and>
   seed_line (Map.empty, 0, 0) [CHR 0x20, CHR 0x20, CHR 0x09, CHR 0x0A] =
     ((Map.empty(''c3168ffb'' \<mapsto> [CHR 0x20, CHR 0x20, CHR 0x09]), 1, 1), []) \<and>
   encode_line Map.empty ''\<newline>'' = (Map.empty, [0], [])"
proof -
  have r: "rstrip_nl [CHR 0x20, CHR 0x20, CHR 0x09, CHR 0x0A] = [CHR 0x20, CHR 0x20, CHR 0x09]"
    by (simp add: rstrip_nl_def)
  have h: "rstrip_nl [CHR 0x20, CHR 0x20, CHR 0x09, CHR 0x0A] \<noteq> []"
    by (simp add: r)
  have n: "encode_line Map.empty ''\<newline>'' = (Map.empty, [0], [])"
    by (simp add: encode_line_def rstrip_nl_def)
  from whitespace_line_is_hashed [OF h, of Map.empty 0 0] r n show ?thesis
    by (simp add: add_item_result hexdigest_spaces digest_spaces)
qed

subsection \<open>C5: loading a store that cannot be read\<close>

text \<open>
  C5 asks that a store file that cannot be parsed gives a warning and an empty store,
  never a fatal error. \<open>HashStore_load\<close> does so for the exceptions it catches, but a
  store file cut short, or empty, makes \<^verbatim>\<open>gzip\<close> and \<^verbatim>\<open>pickle\<close> raise \<^verbatim>\<open>EOFError\<close>,
  which it does not catch: nothing is printed, the exception leaves \<open>main\<close> and the
  process ends with status 1. The loader of \<^verbatim>\<open>collision_dedup_cli.py\<close> catches it,
  warns and starts from the empty store.
\<close>

theorem load_truncated_store_raises:
  "HashStore_load
     (empty_os\<lparr>path_exists := (\<lambda>p. p = ''dedupe_main.db''), store_file := (\<lambda>p. Inl EOFError)\<rparr>)
     ''dedupe_main.db'' = ([], Raise EOFError) \<and>
   fst (main
     (empty_os\<lparr>path_exists := (\<lambda>p. p = ''dedupe_main.db''), store_file := (\<lambda>p. Inl EOFError)\<rparr>)
     \<lparr>arg_db = ''dedupe_main.db'', arg_seed = Some ''*.txt'', arg_input = None,
      arg_decode = None, arg_output = None\<rparr>) = [] \<and>
   fst (snd (main
     (empty_os\<lparr>path_exists := (\<lambda>p. p = ''dedupe_main.db''), store_file := (\<lambda>p. Inl EOFError)\<rparr>)
     \<lparr>arg_db = ''dedupe_main.db'', arg_seed = Some ''*.txt'', arg_input = None,
      arg_decode = None, arg_output = None\<rparr>)) = Raise EOFError \<and>
   exit_status (Raise EOFError :: unit result) = 1 \<and>
   collision_load_store
     (empty_os\<lparr>path_exists := (\<lambda>p. p = ''dedupe_main.db''), store_file := (\<lambda>p. Inl EOFError)\<rparr>)
     ''dedupe_main.db'' = ([StoreLoadWarning ''dedupe_main.db'' EOFError], Return Map.empty)"
  by (simp add: HashStore_load_def main_def collision_load_store_def empty_os_def is_IOError_def)

subsection \<open>C6: seeding from a pattern that matches no file\<close>

text \<open>
  C6 asks for a failure status when no file matches the pattern. In a directory with no
  file, \<open>main\<close> with \<^verbatim>\<open>--seed '*.txt'\<close> reports that no file was found, then saves the
  store and returns: the status is 0. The seed branch of \<^verbatim>\<open>collision_dedup_cli.py\<close>
  exits with status 1 there.
\<close>

theorem seed_without_files_exits_zero:
  "fst (main empty_os
     \<lparr>arg_db = ''dedupe_main.db'', arg_seed = Some ''*.txt'', arg_input = None,
      arg_decode = None, arg_output = None\<rparr>) =
     [NoStoreFound ''dedupe_main.db'', NoFilesFound ''*.txt'', StoreSaved ''dedupe_main.db''] \<and>
   fst (snd (main empty_os
     \<lparr>arg_db = ''dedupe_main.db'', arg_seed = Some ''*.txt'', arg_input = None,
      arg_decode = None, arg_output = None\<rparr>)) = Return () \<and>
   exit_status (Return ()) = 0 \<and>
   collision_seed_files empty_os ''dedupe_main.db'' ''*.txt'' =
     ([SeedingDatabase ''dedupe_main.db'' ''*.txt'', NoFilesFound ''*.txt''], SysExit 1)"
  by (simp add: main_def HashStore_load_def run_command_def given_def seed_from_glob_def
      HashStore_save_def collision_seed_files_def empty_os_def)

subsection \<open>C7: the exit status of a decode\<close>

text \<open>
  C7, as stated, fails in its second half. On a hash file of three bytes, the first of
  which is not the marker, the decoder warns of the incomplete hash, \<open>main\<close> saves the
  store, and the status is 0.
\<close>

theorem decode_truncated_counterexample:
  "fst (main
     (empty_os\<lparr>path_exists := (\<lambda>p. p = ''h.bin''),
        binary_file := (\<lambda>p. if p = ''h.bin'' then Some [226, 15, 13] else None)\<rparr>)
     \<lparr>arg_db = ''dedupe_main.db'', arg_seed = None, arg_input = None,
      arg_decode = Some ''h.bin'', arg_output = None\<rparr>) =
     [NoStoreFound ''dedupe_main.db'', Decoding ''h.bin'', IncompleteWarning, DecodingComplete,
      StoreSaved ''dedupe_main.db''] \<and>
   exit_status (fst (snd (main
     (empty_os\<lparr>path_exists := (\<lambda>p. p = ''h.bin''),
        binary_file := (\<lambda>p. if p = ''h.bin'' then Some [226, 15, 13] else None)\<rparr>)
     \<lparr>arg_db = ''dedupe_main.db'', arg_seed = None, arg_input = None,
      arg_decode = Some ''h.bin'', arg_output = None\<rparr>))) = 0"
  by (simp add: main_def HashStore_load_def run_command_def given_def decode_and_print_def
      HashStore_save_def empty_os_def)

text \<open>
  C7, amended. Let the store load and the command be a decode. If the hash file is
  missing, \<open>decode_and_print\<close> reports it and exits with status 1, before anything is
  saved. If the stream ends in an incomplete hash, \<open>decode_and_print\<close> warns and
  returns; \<open>main\<close> then saves the store, and the status is 0, or 1 when the store cannot
  be written.
\<close>

theorem decode_exit_status:
  assumes "HashStore_load os (arg_db a) = (ev0, Return st)"
    and "given (arg_seed a) = None" and "given (arg_input a) = None"
    and "given (arg_decode a) = Some hash_file"
  shows "(\<not> path_exists os hash_file \<longrightarrow>
            decode_and_print os st hash_file = ([HashFileNotFound hash_file], SysExit 1) \<and>
            main os a = (ev0 @ [HashFileNotFound hash_file], SysExit 1, os) \<and>
            exit_status (fst (snd (main os a))) = 1) \<and>
         (path_exists os hash_file \<and> binary_file os hash_file = Some bs \<and>
          IncompleteWarning \<in> set (decode_loop st bs) \<longrightarrow>
            decode_and_print os st hash_file =
              (Decoding hash_file # decode_loop st bs @ [DecodingComplete], Return st) \<and>
            IncompleteWarning \<in> set (fst (main os a)) \<and>
            exit_status (fst (snd (main os a))) = (if write_fails os (arg_db a) then 1 else 0))"
  using assms
  by (simp add: main_def run_command_def decode_and_print_def HashStore_save_def)

theorem decode_exit_status_witness:
  "exit_status (fst (snd (main empty_os
     \<lparr>arg_db = ''dedupe_main.db'', arg_seed = None, arg_input = None,
      arg_decode = Some ''h.bin'', arg_output = None\<rparr>))) = 1 \<and>
   fst (main empty_os
     \<lparr>arg_db = ''dedupe_main.db'', arg_seed = None, arg_input = None,
      arg_decode = Some ''h.bin'', arg_output = None\<rparr>) =
     [NoStoreFound ''dedupe_main.db'', HashFileNotFound ''h.bin''] \<and>
   IncompleteWarning \<in> set (decode_loop Map.empty [226, 15, 13]) \<and>
   IncompleteWarning \<in> set (fst (main
     (empty_os\<lparr>path_exists := (\<lambda>p. p = ''h.bin''),
        binary_file := (\<lambda>p. if p = ''h.bin'' then Some [226, 15, 13] else None)\<rparr>)
     \<lparr>arg_db = ''dedupe_main.db'', arg_seed = None, arg_input = None,
      arg_decode = Some ''h.bin'', arg_output = None\<rparr>)) \<and>
   exit_status (fst (snd (main
     (empty_os\<lparr>path_exists := (\<lambda>p. p = ''h.bin''),
        binary_file := (\<lambda>p. if p = ''h.bin'' then Some [226, 15, 13] else None)\<rparr>)
     \<lparr>arg_db = ''dedupe_main.db'', arg_seed = None, arg_input = None,
      arg_decode = Some ''h.bin'', arg_output = None\<rparr>))) = 0"
proof -
  let ?a = "\<lparr>arg_db = ''dedupe_main.db'', arg_seed = None, arg_input = None,
      arg_decode = Some ''h.bin'', arg_output = None\<rparr>"
  let ?os = "empty_os\<lparr>path_exists := (\<lambda>p. p = ''h.bin''),
        binary_file := (\<lambda>p. if p = ''h.bin'' then Some [226, 15, 13] else None)\<rparr>"
  have l0: "HashStore_load empty_os (arg_db ?a) = ([NoStoreFound ''dedupe_main.db''], Return Map.empty)"
    by (simp add: HashStore_load_def empty_os_def)
  have l1: "HashStore_load ?os (arg_db ?a) = ([NoStoreFound ''dedupe_main.db''], Return Map.empty)"
    by (simp add: HashStore_load_def empty_os_def)
  have g: "given (arg_seed ?a) = None" "given (arg_input ?a) = None"
    "given (arg_decode ?a) = Some ''h.bin''"
    by (simp_all add: given_def)
  have m0: "\<not> path_exists empty_os ''h.bin''" by (simp add: empty_os_def)
  have m1: "path_exists ?os ''h.bin'' \<and> binary_file ?os ''h.bin'' = Some [226, 15, 13] \<and>
    IncompleteWarning \<in> set (decode_loop Map.empty [226, 15, 13])"
    by simp
  have w: "\<not> write_fails ?os (arg_db ?a)" by (simp add: empty_os_def)
  from decode_exit_status [OF l0 g] m0
  have a0: "main empty_os ?a = ([NoStoreFound ''dedupe_main.db''] @ [HashFileNotFound ''h.bin''], SysExit 1, empty_os)"
    and a1: "exit_status (fst (snd (main empty_os ?a))) = 1"
    by blast+
  from a0 have a2: "fst (main empty_os ?a) = [NoStoreFound ''dedupe_main.db'', HashFileNotFound ''h.bin'']"
    by simp
  from decode_exit_status [OF l1 g, of "[226, 15, 13]"] m1
  have b0: "IncompleteWarning \<in> set (fst (main ?os ?a))"
    and b1: "exit_status (fst (snd (main ?os ?a))) = (if write_fails ?os (arg_db ?a) then 1 else 0)"
    by blast+
  from b1 w have b2: "exit_status (fst (snd (main ?os ?a))) = 0" by simp
  from m1 have m2: "IncompleteWarning \<in> set (decode_loop Map.empty [226, 15, 13])" by blast
  from a1 a2 m2 b0 b2 show ?thesis by (intro conjI)
qed

end
